theory Spec2Isabelle
  imports Main "HOL-Library.Sublist"
begin

section \<open>Python values used by the add-on\<close>

text \<open>
  The add-on is one Python module, \<^verbatim>\<open>FrameAndCameraSelector.py\<close>. Strings are modelled
  as lists of ASCII characters, Python's unbounded integers as \<open>int\<close>, and every
  exception the module can raise as a value of \<open>py_error\<close>.
\<close>

datatype py_error = ValueError | AttributeError

subsection \<open>\<^verbatim>\<open>str.split\<close> with a one-character separator\<close>

text \<open>
  \<^verbatim>\<open>s.split(c)\<close> cuts at every occurrence of \<open>c\<close> and keeps empty pieces, so the
  result always has one more element than \<open>s\<close> has separators:
  \<^verbatim>\<open>"".split(",") == [""]\<close> and \<^verbatim>\<open>"a,,b".split(",") == ["a", "", "b"]\<close>.
  \<open>py_split_from c cur s\<close> scans \<open>s\<close> with the piece read so far in \<open>cur\<close>.
\<close>

fun py_split_from :: "char \<Rightarrow> string \<Rightarrow> string \<Rightarrow> string list" where
  "py_split_from c cur [] = [cur]"
| "py_split_from c cur (x # xs) =
     (if x = c then cur # py_split_from c [] xs else py_split_from c (cur @ [x]) xs)"

definition py_split :: "char \<Rightarrow> string \<Rightarrow> string list" where
  "py_split c s = py_split_from c [] s"

subsection \<open>\<^verbatim>\<open>int(str)\<close> in base ten\<close>

text \<open>
  \<^verbatim>\<open>int(s)\<close> skips leading white space, reads an optional sign, then digits in which
  single underscores may stand between two digits, then skips trailing white space;
  anything else raises \<^verbatim>\<open>ValueError\<close>, here the value \<open>None\<close>. White space is
  what CPython's \<^verbatim>\<open>Py_ISSPACE\<close> accepts in an ASCII string: tab, line feed, vertical
  tab, form feed, carriage return and blank. Digits and white space outside ASCII are
  not modelled, nor is the limit on the number of digits of recent CPython versions.
\<close>

definition is_space :: "char \<Rightarrow> bool" where
  "is_space c = (c \<in> set [CHR 0x09, CHR 0x0A, CHR 0x0B, CHR 0x0C, CHR 0x0D, CHR 0x20])"

definition is_digit :: "char \<Rightarrow> bool" where
  "is_digit c = (c \<in> set ''0123456789'')"

definition digit_val :: "char \<Rightarrow> nat" where
  "digit_val c = of_char c - 48"

definition digits_value :: "string \<Rightarrow> nat" where
  "digits_value ds = foldl (\<lambda>acc c. 10 * acc + digit_val c) 0 ds"

definition is_digit_or_underscore :: "char \<Rightarrow> bool" where
  "is_digit_or_underscore c = (is_digit c \<or> c = CHR ''_'')"

fun no_double_underscore :: "string \<Rightarrow> bool" where
  "no_double_underscore (x # y # zs) =
     (if x = CHR ''_'' \<and> y = CHR ''_'' then False else no_double_underscore (y # zs))"
| "no_double_underscore _ = True"

definition valid_body :: "string \<Rightarrow> bool" where
  "valid_body body =
     (if body = [] then False
      else hd body \<noteq> CHR ''_'' \<and> last body \<noteq> CHR ''_'' \<and> no_double_underscore body)"

definition py_int :: "string \<Rightarrow> int option" where
  "py_int s =
     (let s1 = dropWhile is_space s;
          negative = (take 1 s1 = ''-'');
          s2 = (if take 1 s1 = ''+'' \<or> take 1 s1 = ''-'' then drop 1 s1 else s1);
          body = takeWhile is_digit_or_underscore s2;
          rest = dropWhile is_digit_or_underscore s2
      in if valid_body body \<and> list_all is_space rest
         then Some (if negative then - int (digits_value (filter is_digit body))
                    else int (digits_value (filter is_digit body)))
         else None)"

subsection \<open>\<^verbatim>\<open>str(int)\<close> and \<^verbatim>\<open>str.lower\<close>\<close>

fun str_nat :: "nat \<Rightarrow> string" where
  "str_nat n =
     (if n < 10 then [char_of (48 + n)] else str_nat (n div 10) @ [char_of (48 + n mod 10)])"

declare str_nat.simps [simp del]

definition py_str :: "int \<Rightarrow> string" where
  "py_str i = (if i < 0 then CHR ''-'' # str_nat (nat (- i)) else str_nat (nat i))"

definition lower_char :: "char \<Rightarrow> char" where
  "lower_char c =
     (if 65 \<le> (of_char c :: nat) \<and> (of_char c :: nat) \<le> 90
      then char_of ((of_char c :: nat) + 32) else c)"

definition lower :: "string \<Rightarrow> string" where
  "lower s = map lower_char s"

section \<open>Parsing a frame-range string\<close>

text \<open>
  \<^verbatim>\<open>RenderJob._parse_frame_ranges\<close>:
  \<^verbatim>\<open>
  frames = []
  for frame_range in frame_ranges.split(','):
      if '-' in frame_range:
          start_frame, end_frame = map(int, frame_range.split('-'))
          frames.extend(range(start_frame, end_frame + 1))
      else:
          try:
              frames.append(int(frame_range))
          except ValueError:
              print(f"CheeseOFcheese --- Invalid frame range: {frame_range}")
  return frames
  \<close>
  The unpacking of \<^verbatim>\<open>map(int, ...)\<close> into two names raises \<^verbatim>\<open>ValueError\<close> when a
  piece is not an integer and also when there are not exactly two pieces; it stands
  outside the \<^verbatim>\<open>try\<close>, so the error leaves the function. The result of the model is
  the returned list or the error, paired with the lines printed on the way.
\<close>

definition unpack_pair :: "string list \<Rightarrow> py_error + (int \<times> int)" where
  "unpack_pair parts =
     (case parts of
        [a, b] \<Rightarrow>
          (case py_int a of
             None \<Rightarrow> Inl ValueError
           | Some start_frame \<Rightarrow>
               (case py_int b of
                  None \<Rightarrow> Inl ValueError
                | Some end_frame \<Rightarrow> Inr (start_frame, end_frame)))
      | _ \<Rightarrow> Inl ValueError)"

definition invalid_frame_range_msg :: "string \<Rightarrow> string" where
  "invalid_frame_range_msg frame_range =
     ''CheeseOFcheese --- Invalid frame range: '' @ frame_range"

fun parse_loop ::
  "string list \<Rightarrow> int list \<Rightarrow> string list \<Rightarrow> (py_error + int list) \<times> string list" where
  "parse_loop [] frames out = (Inr frames, out)"
| "parse_loop (frame_range # rest) frames out =
     (if CHR ''-'' \<in> set frame_range then
        (case unpack_pair (py_split CHR ''-'' frame_range) of
           Inl e \<Rightarrow> (Inl e, out)
         | Inr (start_frame, end_frame) \<Rightarrow>
             parse_loop rest (frames @ [start_frame..end_frame]) out)
      else
        (case py_int frame_range of
           Some n \<Rightarrow> parse_loop rest (frames @ [n]) out
         | None \<Rightarrow> parse_loop rest frames (out @ [invalid_frame_range_msg frame_range])))"

definition parse_frame_ranges :: "string \<Rightarrow> (py_error + int list) \<times> string list" where
  "parse_frame_ranges frame_ranges = parse_loop (py_split CHR '','' frame_ranges) [] []"

subsection \<open>Well-formed tokens\<close>

text \<open>
  The reference notions the parser is compared with. \<open>join_with c ts\<close> is the text
  whose pieces between the separators \<open>c\<close> are \<open>ts\<close> (Python's \<^verbatim>\<open>c.join(ts)\<close>).
  \<open>token_expands t fs\<close> says that \<open>t\<close> is a well-formed token standing for the frames
  \<open>fs\<close>: a single integer written without a minus sign stands for that one frame, and
  \<open>a-b\<close>, with two such integers \<open>start \<le> end\<close>, for \<open>start, start + 1, \<dots>, end\<close>.
  \<open>descending_token t\<close> is a pair \<open>a-b\<close> of such integers with \<open>start > end\<close>.
\<close>

fun join_with :: "char \<Rightarrow> string list \<Rightarrow> string" where
  "join_with c [] = []"
| "join_with c [t] = t"
| "join_with c (t # u # ts) = t @ c # join_with c (u # ts)"

inductive token_expands :: "string \<Rightarrow> int list \<Rightarrow> bool" where
  single: "py_int t = Some n \<Longrightarrow> CHR ''-'' \<notin> set t \<Longrightarrow> token_expands t [n]"
| pair: "py_int a = Some m \<Longrightarrow> py_int b = Some n \<Longrightarrow> CHR ''-'' \<notin> set a \<Longrightarrow>
         CHR ''-'' \<notin> set b \<Longrightarrow> m \<le> n \<Longrightarrow> token_expands (a @ CHR ''-'' # b) [m..n]"

code_pred token_expands .

inductive descending_token :: "string \<Rightarrow> bool" where
  descending: "py_int a = Some m \<Longrightarrow> py_int b = Some n \<Longrightarrow> CHR ''-'' \<notin> set a \<Longrightarrow>
         CHR ''-'' \<notin> set b \<Longrightarrow> n < m \<Longrightarrow> descending_token (a @ CHR ''-'' # b)"

code_pred descending_token .

section \<open>The host and the objects of the add-on\<close>

text \<open>
  The host application is visible to the module through a few attributes and calls,
  and only those are modelled. A camera object is identified by its name; an unset
  \<^verbatim>\<open>PointerProperty\<close> is \<open>None\<close>. A \<^verbatim>\<open>RenderJob\<close> keeps a reference to its
  camera setting; the model keeps the setting's value, so settings are taken not to be
  edited while a batch runs.
\<close>

record CameraSettings =
  camera :: "string option"
  frame_ranges :: string
  show_preview :: bool

record RenderJob =
  cam_setting :: CameraSettings
  frames :: "int list"
  is_running :: bool
  is_cancelled :: bool
  original_filepath :: string

datatype render_mode = INVOKE_DEFAULT | EXEC_DEFAULT

text \<open>
  One call of \<^verbatim>\<open>bpy.ops.render.render(mode, write_still=True)\<close>, with what the scene
  held when the call was made: the host renders the scene's current frame through the
  scene's camera into the scene's output path.
\<close>

record render_call =
  rc_mode :: render_mode
  rc_camera :: "string option"
  rc_frame :: int
  rc_filepath :: string

datatype op_status = FINISHED | CANCELLED | RUNNING_MODAL | PASS_THROUGH

text \<open>
  Functions of the host that the module calls and that do not change during a batch:
  \<^verbatim>\<open>os.path.join\<close> (which depends on the platform), \<^verbatim>\<open>bpy.path.abspath\<close>, and the
  text Python prints for a list of job objects.
\<close>

record host =
  os_path_join :: "string \<Rightarrow> string \<Rightarrow> string"
  bpy_path_abspath :: "string \<Rightarrow> string"
  repr_jobs :: "nat list \<Rightarrow> string"

text \<open>
  The state: the scene (\<open>scene_camera\<close> to \<open>cam_settings\<close>), the file system as
  \<^verbatim>\<open>os.path.isfile\<close> sees it, the list \<^verbatim>\<open>bpy.app.handlers.render_post\<close>, whether the
  operator is registered as a modal handler, and what the module has sent out: render
  calls, printed lines, operator reports, and the exceptions that left a callback. Job
  objects live in \<open>heap\<close> and are named by references, since the same job is reached
  from the operator and from the handler it registers. \<open>op_jobs\<close> and
  \<open>op_current_job\<close> are the operator's \<^verbatim>\<open>_jobs\<close> and \<^verbatim>\<open>_current_job\<close>.
\<close>

record state =
  scene_camera :: "string option"
  frame_current :: int
  render_filepath :: string
  use_overwrite :: bool
  file_format :: string
  cam_settings :: "CameraSettings list"
  isfile :: "string \<Rightarrow> bool"
  render_post :: "nat list"
  modal_handler :: bool
  render_calls :: "render_call list"
  console :: "string list"
  reports :: "(string \<times> string) list"
  uncaught :: "py_error list"
  heap :: "nat \<Rightarrow> RenderJob"
  next_ref :: nat
  op_jobs :: "nat list"
  op_current_job :: "nat option"

definition py_print :: "state \<Rightarrow> string \<Rightarrow> state" where
  "py_print st line = st\<lparr>console := console st @ [line]\<rparr>"

text \<open>The lines the module prints.\<close>

definition finished_all_msg :: "string \<Rightarrow> string" where
  "finished_all_msg name = ''CheeseOFcheese --- Finished rendering all frames with '' @ name"

definition skipping_msg :: "int \<Rightarrow> string \<Rightarrow> string" where
  "skipping_msg frame name =
     ''CheeseOFcheese --- Skipping frame '' @ py_str frame @ '' with '' @ name @
     '' because it has already been rendered''"




definition jobs_initialized_msg :: "string \<Rightarrow> string" where
  "jobs_initialized_msg jobs_repr = ''CheeseOFcheese --- Render jobs initialized: '' @ jobs_repr"

definition no_jobs_report :: "string \<times> string" where
  "no_jobs_report = (''WARNING'', ''No valid render jobs found. Please add camera settings.'')"


section \<open>\<^verbatim>\<open>RenderJob\<close>\<close>

text \<open>
  \<^verbatim>\<open>RenderJob.__init__\<close> parses the setting's frame ranges and records the scene's
  output path. An error of the parser leaves the constructor; what the parser printed
  stays printed.
\<close>

definition new_RenderJob :: "state \<Rightarrow> CameraSettings \<Rightarrow> state \<times> (py_error + nat)" where
  "new_RenderJob st cs =
     (case parse_frame_ranges (frame_ranges cs) of
        (r, out) \<Rightarrow>
          (let st1 = st\<lparr>console := console st @ out\<rparr> in
           case r of
             Inl e \<Rightarrow> (st1, Inl e)
           | Inr fs \<Rightarrow>
               (st1\<lparr>heap := (heap st1)(next_ref st1 :=
                       \<lparr>cam_setting = cs, frames = fs, is_running = False,
                        is_cancelled = False, original_filepath = render_filepath st1\<rparr>),
                     next_ref := Suc (next_ref st1)\<rparr>,
                Inr (next_ref st1))))"

text \<open>
  \<^verbatim>\<open>RenderJob.finish\<close>:
  \<^verbatim>\<open>
  self.is_running = False
  bpy.context.scene.render.filepath = self.original_filepath
  print(f"CheeseOFcheese --- Finished rendering all frames with {self.cam_setting.camera.name}")
  \<close>
  The last line reads the name of the camera, which raises \<^verbatim>\<open>AttributeError\<close> when
  the setting has no camera, after the two assignments.
\<close>

definition finish :: "state \<Rightarrow> nat \<Rightarrow> state \<times> (py_error + unit)" where
  "finish st self =
     (let job = heap st self;
          st1 = st\<lparr>heap := (heap st)(self := job\<lparr>is_running := False\<rparr>)\<rparr>;
          st2 = st1\<lparr>render_filepath := original_filepath job\<rparr>
      in case camera (cam_setting job) of
           None \<Rightarrow> (st2, Inl AttributeError)
         | Some name \<Rightarrow>
             (py_print st2 (finished_all_msg name), Inr ()))"

text \<open>
  \<^verbatim>\<open>RenderJob.render_next_frame\<close>:
  \<^verbatim>\<open>
  if self.frames and not self.is_cancelled:
      frame = self.frames.pop(0)
      scene = bpy.context.scene
      scene.frame_set(frame)
      file_format = scene.render.image_settings.file_format.lower()
      file_extension = f".{file_format}"
      filepath = os.path.join(self.original_filepath,
                              f"{self.cam_setting.camera.name}_frame{frame}{file_extension}")
      scene.render.filepath = filepath
      if not scene.render.use_overwrite and os.path.isfile(bpy.path.abspath(filepath)):
          print(f"CheeseOFcheese --- Skipping frame {frame} with ... because ...")
          self.render_next_frame()
      else:
          self.is_running = True
          bpy.app.handlers.render_post.append(self.render_post_handler)
          bpy.ops.render.render('INVOKE_DEFAULT' if self.cam_setting.show_preview
                                else 'EXEC_DEFAULT', write_still=True)
  else:
      self.finish()
  \<close>
  The render operator is modelled as recording the call and returning: the host tells
  the module that the render is over by calling the handlers of \<^verbatim>\<open>render_post\<close>,
  which is a separate step of the model (\<open>host_step\<close> below). The call is the last
  statement of every path that reaches it, so a host that runs the handlers before the
  operator returns goes through the same states. The depth of Python's call stack is
  taken to be unbounded.
\<close>

definition frame_filepath :: "host \<Rightarrow> string \<Rightarrow> string \<Rightarrow> int \<Rightarrow> string \<Rightarrow> string" where
  "frame_filepath h original name frame fmt =
     os_path_join h original (name @ ''_frame'' @ py_str frame @ ''.'' @ lower fmt)"

function render_next_frame :: "host \<Rightarrow> state \<Rightarrow> nat \<Rightarrow> state \<times> (py_error + unit)" where
  "render_next_frame h st self =
     (let job = heap st self in
      case frames job of
        [] \<Rightarrow> finish st self
      | frame # rest \<Rightarrow>
          if is_cancelled job then finish st self
          else
            (let st1 = st\<lparr>heap := (heap st)(self := job\<lparr>frames := rest\<rparr>),
                          frame_current := frame\<rparr>
             in case camera (cam_setting job) of
                  None \<Rightarrow> (st1, Inl AttributeError)
                | Some name \<Rightarrow>
                    (let filepath =
                           frame_filepath h (original_filepath job) name frame (file_format st1);
                         st2 = st1\<lparr>render_filepath := filepath\<rparr>
                     in if \<not> use_overwrite st2 \<and> isfile st2 (bpy_path_abspath h filepath)
                        then render_next_frame h (py_print st2 (skipping_msg frame name)) self
                        else
                          (let st3 = st2\<lparr>heap := (heap st2)
                                          (self := (heap st2 self)\<lparr>is_running := True\<rparr>),
                                        render_post := render_post st2 @ [self]\<rparr>
                           in (st3\<lparr>render_calls := render_calls st3 @
                                     [\<lparr>rc_mode = (if show_preview (cam_setting job)
                                                   then INVOKE_DEFAULT else EXEC_DEFAULT),
                                       rc_camera = scene_camera st3,
                                       rc_frame = frame_current st3,
                                       rc_filepath = render_filepath st3\<rparr>]\<rparr>,
                               Inr ())))))"
  by pat_completeness auto
termination
  by (relation "measure (\<lambda>(h, st, self). length (frames (heap st self)))")
     (auto simp: py_print_def)

declare render_next_frame.simps [simp del]



section \<open>\<^verbatim>\<open>RenderOperator\<close>\<close>

text \<open>
  \<^verbatim>\<open>RenderOperator.execute\<close>:
  \<^verbatim>\<open>
  self._jobs = [RenderJob(cam_setting) for cam_setting in context.scene.cam_settings
                if cam_setting.camera]
  print("CheeseOFcheese --- Render jobs initialized:", self._jobs)
  if not self._jobs:
      self.report({'WARNING'}, "No valid render jobs found. Please add camera settings.")
      return {'CANCELLED'}
  context.window_manager.modal_handler_add(self)
  return {'RUNNING_MODAL'}
  \<close>
  \<open>build_jobs\<close> is the list comprehension.
\<close>

fun build_jobs :: "state \<Rightarrow> CameraSettings list \<Rightarrow> nat list \<Rightarrow> state \<times> (py_error + nat list)" where
  "build_jobs st [] acc = (st, Inr acc)"
| "build_jobs st (cs # rest) acc =
     (if camera cs \<noteq> None then
        (case new_RenderJob st cs of
           (st1, Inl e) \<Rightarrow> (st1, Inl e)
         | (st1, Inr ref) \<Rightarrow> build_jobs st1 rest (acc @ [ref]))
      else build_jobs st rest acc)"

definition execute :: "host \<Rightarrow> state \<Rightarrow> state \<times> (py_error + op_status)" where
  "execute h st =
     (case build_jobs st (cam_settings st) [] of
        (st1, Inl e) \<Rightarrow> (st1, Inl e)
      | (st1, Inr jobs) \<Rightarrow>
          (let st2 = py_print (st1\<lparr>op_jobs := jobs\<rparr>) (jobs_initialized_msg (repr_jobs h jobs))
           in if jobs = [] then
                (st2\<lparr>reports := reports st2 @ [no_jobs_report]\<rparr>, Inr CANCELLED)
              else (st2\<lparr>modal_handler := True\<rparr>, Inr RUNNING_MODAL)))"




section \<open>The host's event loop\<close>





section \<open>Notions used in the statements\<close>

subsection \<open>One call of \<^verbatim>\<open>render_next_frame\<close>\<close>

text \<open>
  \<open>file_exists\<close> is the test \<^verbatim>\<open>os.path.isfile(bpy.path.abspath(filepath))\<close> for the output
  file of a frame, \<open>skip_cond\<close> the whole condition under which the frame is skipped,
  \<open>skip_state\<close> the state in which the method calls itself after skipping a frame, and
  \<open>render_call_for\<close> the render call it makes for a frame that is not skipped.
  \<open>rnf_closed\<close> describes the result of the method without recursion: the frames at the
  head of the list that are skipped, then either the first frame that is rendered or
  the end of the job. \<open>new_render_calls st st'\<close> are the calls made between two states.
\<close>

definition render_call_for :: "host \<Rightarrow> state \<Rightarrow> nat \<Rightarrow> string \<Rightarrow> int \<Rightarrow> render_call" where
  "render_call_for h st self name frame =
     \<lparr>rc_mode = (if show_preview (cam_setting (heap st self)) then INVOKE_DEFAULT else EXEC_DEFAULT),
      rc_camera = scene_camera st,
      rc_frame = frame,
      rc_filepath = os_path_join h (original_filepath (heap st self))
                      (name @ ''_frame'' @ py_str frame @ ''.'' @ lower (file_format st))\<rparr>"

definition file_exists :: "host \<Rightarrow> state \<Rightarrow> nat \<Rightarrow> string \<Rightarrow> int \<Rightarrow> bool" where
  "file_exists h st self name frame =
     isfile st (bpy_path_abspath h
       (frame_filepath h (original_filepath (heap st self)) name frame (file_format st)))"

definition skip_state :: "state \<Rightarrow> nat \<Rightarrow> string \<Rightarrow> string \<Rightarrow> int \<Rightarrow> int list \<Rightarrow> state" where
  "skip_state st self filepath name frame rest =
     st\<lparr>heap := (heap st)(self := (heap st self)\<lparr>frames := rest\<rparr>),
        frame_current := frame, render_filepath := filepath,
        console := console st @ [skipping_msg frame name]\<rparr>"

definition skip_cond :: "host \<Rightarrow> state \<Rightarrow> nat \<Rightarrow> string \<Rightarrow> int \<Rightarrow> bool" where
  "skip_cond h st self name frame = (\<not> use_overwrite st \<and> file_exists h st self name frame)"

definition rnf_closed :: "host \<Rightarrow> state \<Rightarrow> nat \<Rightarrow> string \<Rightarrow> state \<times> (py_error + unit)" where
  "rnf_closed h st self name =
     (let job = heap st self;
          skipped = takeWhile (skip_cond h st self name) (frames job);
          st1 = st\<lparr>frame_current := last (frame_current st # skipped),
                   console := console st @ map (\<lambda>f. skipping_msg f name) skipped\<rparr>
      in case dropWhile (skip_cond h st self name) (frames job) of
           [] \<Rightarrow>
             (st1\<lparr>heap := (heap st)(self := job\<lparr>frames := [], is_running := False\<rparr>),
                  render_filepath := original_filepath job,
                  console := console st1 @ [finished_all_msg name]\<rparr>,
              Inr ())
         | frame # rest \<Rightarrow>
             (st1\<lparr>heap := (heap st)(self := job\<lparr>frames := rest, is_running := True\<rparr>),
                  frame_current := frame,
                  render_filepath := frame_filepath h (original_filepath job) name frame (file_format st),
                  render_post := render_post st @ [self],
                  render_calls := render_calls st @ [render_call_for h st self name frame]\<rparr>,
              Inr ()))"

definition new_render_calls :: "state \<Rightarrow> state \<Rightarrow> render_call list" where
  "new_render_calls st st' = drop (length (render_calls st)) (render_calls st')"

subsection \<open>The schedule of a batch\<close>







subsection \<open>The states of a running batch\<close>



definition built_from :: "state \<Rightarrow> state \<Rightarrow> bool" where
  "built_from st st' =
     (scene_camera st' = scene_camera st \<and> frame_current st' = frame_current st \<and>
      render_filepath st' = render_filepath st \<and> use_overwrite st' = use_overwrite st \<and>
      file_format st' = file_format st \<and> cam_settings st' = cam_settings st \<and>
      isfile st' = isfile st \<and> render_post st' = render_post st \<and>
      modal_handler st' = modal_handler st \<and> render_calls st' = render_calls st \<and>
      reports st' = reports st \<and> uncaught st' = uncaught st \<and>
      op_jobs st' = op_jobs st \<and> op_current_job st' = op_current_job st)"






subsection \<open>A small batch\<close>

text \<open>
  Two cameras and a setting without camera; the output file of frame 3 of the first
  camera exists and is not to be overwritten. The heap holds a job with a camera at
  reference 0 and jobs without camera elsewhere.
\<close>

definition example_host :: host where
  "example_host =
     \<lparr>os_path_join = (\<lambda>d f. d @ ''/'' @ f), bpy_path_abspath = (\<lambda>p. p),
      repr_jobs = (\<lambda>js. ''[...]'')\<rparr>"

definition example_job :: RenderJob where
  "example_job =
     \<lparr>cam_setting = \<lparr>camera = Some ''CamA'', frame_ranges = ''3,4'', show_preview = True\<rparr>,
      frames = [3, 4], is_running = False, is_cancelled = False,
      original_filepath = ''/tmp/out''\<rparr>"

definition orphan_job :: RenderJob where
  "orphan_job =
     \<lparr>cam_setting = \<lparr>camera = None, frame_ranges = ''9'', show_preview = True\<rparr>,
      frames = [9], is_running = False, is_cancelled = False,
      original_filepath = ''/tmp/out''\<rparr>"

definition example_state :: state where
  "example_state =
     \<lparr>scene_camera = None, frame_current = 1, render_filepath = ''/tmp/out'',
      use_overwrite = False, file_format = ''PNG'',
      cam_settings =
        [\<lparr>camera = Some ''CamA'', frame_ranges = ''1,3-4'', show_preview = True\<rparr>,
         \<lparr>camera = None, frame_ranges = ''9'', show_preview = True\<rparr>,
         \<lparr>camera = Some ''CamB'', frame_ranges = ''7,x'', show_preview = False\<rparr>],
      isfile = (\<lambda>p. p = ''/tmp/out/CamA_frame3.png''),
      render_post = [], modal_handler = False, render_calls = [], console = [], reports = [],
      uncaught = [], heap = (\<lambda>r. if r = 0 then example_job else orphan_job),
      next_ref = 2, op_jobs = [], op_current_job = None\<rparr>"


section \<open>Properties of the parser\<close>

subsection \<open>Splitting and joining\<close>

lemma py_split_from_append:
  "py_split_from c cur (a @ c # b) = py_split_from c cur a @ py_split_from c [] b"
  by (induction a arbitrary: cur) auto

lemma py_split_from_absent: "c \<notin> set a \<Longrightarrow> py_split_from c cur a = [cur @ a]"
  by (induction a arbitrary: cur) auto

lemma py_split_append: "py_split c (a @ c # b) = py_split c a @ py_split c b"
  by (simp add: py_split_def py_split_from_append)

lemma py_split_absent: "c \<notin> set a \<Longrightarrow> py_split c a = [a]"
  by (simp add: py_split_def py_split_from_absent)

lemma py_split_join:
  "ts \<noteq> [] \<Longrightarrow> list_all (\<lambda>t. c \<notin> set t) ts \<Longrightarrow> py_split c (join_with c ts) = ts"
proof (induction c ts rule: join_with.induct)
  case (1 c)
  then show ?case by simp
next
  case (2 c t)
  then show ?case by (simp add: py_split_absent)
next
  case (3 c t u ts)
  then show ?case by (simp add: py_split_append py_split_absent)
qed

lemma py_split_from_not_Nil: "py_split_from c cur s \<noteq> []"
  by (induction s arbitrary: cur) auto

lemma join_with_Cons: "ts \<noteq> [] \<Longrightarrow> join_with c (t # ts) = t @ c # join_with c ts"
  by (cases ts) simp_all

lemma join_with_py_split_from: "join_with c (py_split_from c cur s) = cur @ s"
  by (induction s arbitrary: cur) (simp_all add: join_with_Cons py_split_from_not_Nil)

lemma join_with_py_split: "py_split c s \<noteq> [] \<and> join_with c (py_split c s) = s"
  by (simp add: py_split_def py_split_from_not_Nil join_with_py_split_from)

subsection \<open>Integers and tokens\<close>

lemma py_int_chars:
  assumes "py_int s = Some n" and "c \<in> set s"
  shows "is_space c \<or> c = CHR ''+'' \<or> c = CHR ''-'' \<or> is_digit_or_underscore c"
proof -
  define s1 where "s1 = dropWhile is_space s"
  define s2 where "s2 = (if take 1 s1 = ''+'' \<or> take 1 s1 = ''-'' then drop 1 s1 else s1)"
  have rest: "list_all is_space (dropWhile is_digit_or_underscore s2)"
    using assms(1) unfolding py_int_def Let_def s1_def s2_def by (simp split: if_splits)
  have "s = takeWhile is_space s @ s1"
    by (simp add: s1_def)
  then have "c \<in> set (takeWhile is_space s) \<or> c \<in> set s1"
    using assms(2) by (metis Un_iff set_append)
  moreover have "c \<in> set s1 \<Longrightarrow> c = CHR ''+'' \<or> c = CHR ''-'' \<or> c \<in> set s2"
    unfolding s2_def by (cases s1) (auto split: if_splits)
  moreover have "c \<in> set s2 \<Longrightarrow> is_digit_or_underscore c \<or> is_space c"
  proof -
    assume "c \<in> set s2"
    then have "c \<in> set (takeWhile is_digit_or_underscore s2) \<or> c \<in> set (dropWhile is_digit_or_underscore s2)"
      by (metis Un_iff set_append takeWhile_dropWhile_id)
    then show ?thesis
      using rest by (auto simp: list_all_iff dest: set_takeWhileD)
  qed
  ultimately show ?thesis
    by (auto dest: set_takeWhileD)
qed

lemma no_double_underscore_digits: "list_all is_digit ds \<Longrightarrow> no_double_underscore ds"
  by (induction ds rule: no_double_underscore.induct) (auto simp: is_digit_def)

lemma py_int_digits:
  assumes "ds \<noteq> []" and "list_all is_digit ds"
  shows "py_int ds = Some (int (digits_value ds))"
proof -
  from assms obtain d ds' where ds: "ds = d # ds'" and d: "is_digit d"
    by (cases ds) auto
  have ns: "\<not> is_space d" and sign: "d \<noteq> CHR ''+''" "d \<noteq> CHR ''-''" "d \<noteq> CHR ''_''"
    using d by (auto simp: is_digit_def is_space_def)
  have all: "list_all is_digit_or_underscore ds"
    using assms(2) by (simp add: list_all_iff is_digit_or_underscore_def)
  then have tw: "takeWhile is_digit_or_underscore ds = ds"
    and dw: "dropWhile is_digit_or_underscore ds = []"
    by (simp_all add: list_all_iff)
  have "is_digit (last ds)"
    using assms by (simp add: list_all_iff)
  then have "last ds \<noteq> CHR ''_''"
    by (auto simp: is_digit_def)
  then have vb: "valid_body ds"
    using assms sign by (simp add: valid_body_def ds no_double_underscore_digits[OF assms(2), unfolded ds])
  have fl: "filter is_digit ds = ds"
    using assms(2) by (simp add: list_all_iff)
  have s1: "dropWhile is_space ds = ds"
    using ns by (simp add: ds)
  have t1: "take 1 ds \<noteq> ''+''" "take 1 ds \<noteq> ''-''"
    using sign by (simp_all add: ds)
  show ?thesis
    unfolding py_int_def Let_def s1 using t1 by (simp add: tw dw vb fl)
qed

lemma py_int_no_comma: "py_int s = Some n \<Longrightarrow> CHR '','' \<notin> set s"
  by (auto dest!: py_int_chars simp: is_space_def is_digit_or_underscore_def is_digit_def)

lemma token_expands_no_comma: "token_expands t fs \<Longrightarrow> CHR '','' \<notin> set t"
  by (induction rule: token_expands.induct) (auto dest: py_int_no_comma)

lemma digits_no_minus:
  assumes "list_all is_digit ds"
  shows "CHR ''-'' \<notin> set ds"
proof
  assume "CHR ''-'' \<in> set ds"
  with assms have "is_digit CHR ''-''"
    by (simp add: list_all_iff)
  then show False
    by (simp add: is_digit_def)
qed

lemma token_expands_digits:
  "ds \<noteq> [] \<Longrightarrow> list_all is_digit ds \<Longrightarrow> token_expands ds [int (digits_value ds)]"
  by (rule token_expands.single) (simp_all add: py_int_digits digits_no_minus)

lemma token_expands_digits_pair:
  assumes "a \<noteq> []" and "list_all is_digit a" and "b \<noteq> []" and "list_all is_digit b"
    and "digits_value a \<le> digits_value b"
  shows "token_expands (a @ CHR ''-'' # b) [int (digits_value a)..int (digits_value b)]"
  using assms by (intro token_expands.pair) (simp_all add: py_int_digits digits_no_minus)

lemma unpack_pair_two:
  "py_int a = Some m \<Longrightarrow> py_int b = Some n \<Longrightarrow> CHR ''-'' \<notin> set a \<Longrightarrow> CHR ''-'' \<notin> set b \<Longrightarrow>
   unpack_pair (py_split CHR ''-'' (a @ CHR ''-'' # b)) = Inr (m, n)"
  by (simp add: py_split_append py_split_absent unpack_pair_def)

lemma parse_loop_token:
  "token_expands t fs \<Longrightarrow> parse_loop (t # rest) acc out = parse_loop rest (acc @ fs) out"
  by (induction rule: token_expands.induct) (simp_all add: unpack_pair_two)

lemma parse_loop_well_formed:
  "list_all2 token_expands ts fss \<Longrightarrow> parse_loop ts acc out = (Inr (acc @ concat fss), out)"
proof (induction ts fss arbitrary: acc rule: list_all2_induct)
  case Nil
  then show ?case by simp
next
  case (Cons t fs ts fss)
  then show ?case by (simp add: parse_loop_token del: parse_loop.simps)
qed

text \<open>
  Every string is the join of its comma-separated tokens, which are never none
  (\<open>join_with_py_split\<close>), so a statement about the joins of non-empty token lists
  is a statement about all strings. Plain decimal numerals, one or more ASCII digits,
  are integers without a minus sign for \<open>token_expands\<close>, with their decimal value
  (\<open>token_expands_digits\<close> and \<open>token_expands_digits_pair\<close>).
\<close>

text \<open>
  Claim C1, as amended. For every frame-range string whose comma-separated tokens
  \<open>ts\<close> are all well-formed (each token is a single integer written without a minus
  sign, or a pair \<open>start-end\<close> of two such integers with \<open>start \<le> end\<close>), the tokens
  the parser sees are exactly \<open>ts\<close>, and parsing returns the concatenation, in token
  order, of each token's expansion: the one frame of a single integer, and
  \<open>start, start + 1, \<dots>, end\<close> for a pair. Nothing is printed.
\<close>

theorem parse_well_formed:
  assumes "ts \<noteq> []" and "list_all2 token_expands ts fss"
  shows "py_split CHR '','' (join_with CHR '','' ts) = ts \<and>
         parse_frame_ranges (join_with CHR '','' ts) = (Inr (concat fss), [])"
proof -
  have "list_all (\<lambda>t. CHR '','' \<notin> set t) ts"
    using assms(2) by (induction rule: list_all2_induct) (auto dest: token_expands_no_comma)
  then have "py_split CHR '','' (join_with CHR '','' ts) = ts"
    using assms(1) by (rule py_split_join[rotated])
  then show ?thesis
    using assms(2) by (simp add: parse_frame_ranges_def parse_loop_well_formed)
qed


theorem parse_well_formed_witness:
  "[''11'', ''25'', ''250-253''] \<noteq> [] \<and>
   list_all2 token_expands [''11'', ''25'', ''250-253''] [[11], [25], [250..253]] \<and>
   parse_frame_ranges ''11,25,250-253'' = (Inr [11, 25, 250, 251, 252, 253], [])"
proof -
  have a: "py_int ''11'' = Some 11" and b: "py_int ''25'' = Some 25"
    and c: "py_int ''250'' = Some 250" and d: "py_int ''253'' = Some 253"
    by code_simp+
  have t1: "token_expands ''11'' [11]"
    by (rule token_expands.single[OF a]) simp
  have t2: "token_expands ''25'' [25]"
    by (rule token_expands.single[OF b]) simp
  have "token_expands (''250'' @ CHR ''-'' # ''253'') [250..253]"
    by (rule token_expands.pair[OF c d]) simp_all
  then have t3: "token_expands ''250-253'' [250..253]"
    by simp
  have h: "list_all2 token_expands [''11'', ''25'', ''250-253''] [[11], [25], [250..253]]"
    using t1 t2 t3 by simp
  have e: "[250..253] = [250, 251, 252, 253 :: int]"
    by code_simp
  show ?thesis
    using parse_well_formed[OF _ h] h by (simp add: e)
qed

text \<open>
  The restriction to integers without a minus sign is needed: \<^verbatim>\<open>-5\<close> is a decimal
  integer for \<^verbatim>\<open>int\<close>, but it contains the range separator, is split into an empty
  text and \<^verbatim>\<open>5\<close>, and the conversion of the empty text raises.
\<close>

theorem parse_negative_counterexample:
  "py_int ''-5'' = Some (- 5) \<and> parse_frame_ranges ''-5'' = (Inl ValueError, [])"
  by code_simp

lemma parse_loop_append:
  "parse_loop (xs @ ys) acc out =
     (case parse_loop xs acc out of
        (Inl e, out') \<Rightarrow> (Inl e, out')
      | (Inr acc', out') \<Rightarrow> parse_loop ys acc' out')"
  by (induction xs acc out rule: parse_loop.induct) (auto split: sum.splits option.splits)

lemma parse_loop_descending:
  assumes "descending_token t"
  shows "parse_loop (t # rest) acc out = parse_loop rest acc out"
  using assms by (induction rule: descending_token.induct) (simp add: unpack_pair_two)

lemma descending_token_no_comma: "descending_token t \<Longrightarrow> CHR '','' \<notin> set t"
  by (induction rule: descending_token.induct) (auto dest: py_int_no_comma)

lemma descending_5_3: "descending_token ''5-3''"
proof -
  have a: "py_int ''5'' = Some 5" and b: "py_int ''3'' = Some 3"
    by code_simp+
  have "descending_token (''5'' @ CHR ''-'' # ''3'')"
    by (rule descending_token.descending[OF a b]) simp_all
  then show ?thesis by simp
qed

text \<open>
  Claim C3, as amended. For every token of the form \<open>start-end\<close> whose two integers are
  written without a minus sign and satisfy \<open>start > end\<close>, parsing does not fail
  because of the token and the token contributes no frames: alone it gives the empty
  list, and at the beginning, at the end or in the middle of any frame-range string it
  leaves the result of parsing the rest unchanged.
\<close>

theorem descending_range_no_frames:
  assumes "descending_token t"
  shows "parse_frame_ranges t = (Inr [], []) \<and>
         parse_frame_ranges (t @ CHR '','' # s) = parse_frame_ranges s \<and>
         parse_frame_ranges (s @ CHR '','' # t) = parse_frame_ranges s \<and>
         parse_frame_ranges (s1 @ CHR '','' # t @ CHR '','' # s2) =
           parse_frame_ranges (s1 @ CHR '','' # s2)"
proof -
  have split_t: "py_split CHR '','' t = [t]"
    using assms by (simp add: descending_token_no_comma py_split_absent)
  have one: "parse_loop [t] acc out = (Inr acc, out)" for acc out
    using parse_loop_descending[OF assms, of "[]"] by simp
  have alone: "parse_frame_ranges t = (Inr [], [])"
    by (simp add: parse_frame_ranges_def split_t one del: parse_loop.simps)
  have first: "parse_frame_ranges (t @ CHR '','' # s) = parse_frame_ranges s"
    by (simp add: parse_frame_ranges_def py_split_append split_t parse_loop_descending[OF assms]
        del: parse_loop.simps)
  have last: "parse_frame_ranges (s @ CHR '','' # t) = parse_frame_ranges s"
    by (simp add: parse_frame_ranges_def py_split_append split_t parse_loop_append one
        del: parse_loop.simps split: prod.splits sum.splits)
  have "py_split CHR '','' (s1 @ CHR '','' # t @ CHR '','' # s2) =
          py_split CHR '','' s1 @ t # py_split CHR '','' s2"
    by (simp add: py_split_append split_t)
  then have middle: "parse_frame_ranges (s1 @ CHR '','' # t @ CHR '','' # s2) =
      parse_frame_ranges (s1 @ CHR '','' # s2)"
    by (simp add: parse_frame_ranges_def py_split_append parse_loop_append
        parse_loop_descending[OF assms] del: parse_loop.simps split: prod.splits sum.splits)
  show ?thesis
    using alone first last middle by simp
qed

theorem descending_range_no_frames_witness:
  "descending_token ''5-3'' \<and>
   parse_frame_ranges ''5-3'' = (Inr [], []) \<and>
   parse_frame_ranges ''5-3,7'' = (Inr [7], []) \<and>
   parse_frame_ranges ''7,5-3'' = (Inr [7], []) \<and>
   parse_frame_ranges ''7,5-3,9'' = (Inr [7, 9], [])"
proof -
  have p7: "parse_frame_ranges ''7'' = (Inr [7], [])"
    and p79: "parse_frame_ranges ''7,9'' = (Inr [7, 9], [])"
    by code_simp+
  show ?thesis
    using descending_range_no_frames[OF descending_5_3, of "''7''" "''7''" "''9''"] descending_5_3
    by (simp add: p7 p79)
qed

text \<open>
  The claim as stated, that a descending range makes parsing fail, does not hold:
  \<^verbatim>\<open>range(5, 4)\<close> is empty and \<^verbatim>\<open>extend\<close> adds nothing.
\<close>

theorem descending_range_counterexample:
  "parse_frame_ranges ''5-3'' = (Inr [], [])"
  by code_simp

text \<open>
  Claim C2. Parsing is claimed never to raise, a token that fails to parse being
  skipped with a diagnostic. The code does so for a token without \<^verbatim>\<open>-\<close>, whose
  conversion stands inside the \<^verbatim>\<open>try\<close>, but not for a token with \<^verbatim>\<open>-\<close>: the
  conversion of its pieces stands outside, and the frames already parsed are lost with
  the exception.
\<close>

theorem parse_malformed_range_raises:
  "parse_frame_ranges ''1,2-x'' = (Inl ValueError, []) \<and>
   parse_frame_ranges ''1,x'' = (Inr [1], [invalid_frame_range_msg ''x''])"
  by code_simp

lemma parse_loop_without_ranges:
  "list_all (\<lambda>t. CHR ''-'' \<notin> set t) ts \<Longrightarrow> \<exists>fs out'. parse_loop ts acc out = (Inr fs, out')"
  by (induction ts arbitrary: acc out) (auto split: option.splits)

lemma parse_without_ranges_returns:
  "list_all (\<lambda>t. CHR ''-'' \<notin> set t) (py_split CHR '','' s) \<Longrightarrow>
   \<exists>fs out'. parse_frame_ranges s = (Inr fs, out')"
  unfolding parse_frame_ranges_def by (rule parse_loop_without_ranges)

section \<open>Properties of a render job\<close>

subsection \<open>The equations of \<^verbatim>\<open>finish\<close> and \<^verbatim>\<open>render_next_frame\<close>\<close>

lemma finish_camera:
  "camera (cam_setting (heap st self)) = Some name \<Longrightarrow>
   finish st self =
     (st\<lparr>heap := (heap st)(self := (heap st self)\<lparr>is_running := False\<rparr>),
         render_filepath := original_filepath (heap st self),
         console := console st @ [finished_all_msg name]\<rparr>,
      Inr ())"
  by (simp add: finish_def py_print_def Let_def)

lemma finish_no_camera:
  "camera (cam_setting (heap st self)) = None \<Longrightarrow>
   finish st self =
     (st\<lparr>heap := (heap st)(self := (heap st self)\<lparr>is_running := False\<rparr>),
         render_filepath := original_filepath (heap st self)\<rparr>,
      Inl AttributeError)"
  by (simp add: finish_def Let_def)

lemma rnf_nil:
  "frames (heap st self) = [] \<Longrightarrow> render_next_frame h st self = finish st self"
  by (subst render_next_frame.simps) (simp add: Let_def)

lemma rnf_cancelled:
  "is_cancelled (heap st self) \<Longrightarrow> render_next_frame h st self = finish st self"
  by (subst render_next_frame.simps) (simp add: Let_def split: list.splits)

lemma rnf_skip:
  assumes "frames (heap st self) = frame # rest" and "\<not> is_cancelled (heap st self)"
    and "camera (cam_setting (heap st self)) = Some name"
    and "\<not> use_overwrite st" and "file_exists h st self name frame"
  shows "render_next_frame h st self =
         render_next_frame h
           (skip_state st self
              (frame_filepath h (original_filepath (heap st self)) name frame (file_format st))
              name frame rest) self"
  using assms
  by (subst render_next_frame.simps)
     (simp add: Let_def py_print_def skip_state_def file_exists_def)

lemma rnf_render:
  assumes "frames (heap st self) = frame # rest" and "\<not> is_cancelled (heap st self)"
    and "camera (cam_setting (heap st self)) = Some name"
    and "use_overwrite st \<or> \<not> file_exists h st self name frame"
  shows "render_next_frame h st self =
         (st\<lparr>heap := (heap st)(self := (heap st self)\<lparr>frames := rest, is_running := True\<rparr>),
             frame_current := frame,
             render_filepath :=
               frame_filepath h (original_filepath (heap st self)) name frame (file_format st),
             render_post := render_post st @ [self],
             render_calls := render_calls st @ [render_call_for h st self name frame]\<rparr>,
          Inr ())"
  using assms
  by (subst render_next_frame.simps)
     (auto simp add: Let_def file_exists_def render_call_for_def frame_filepath_def)

lemma rnf_no_camera:
  assumes "frames (heap st self) = frame # rest" and "\<not> is_cancelled (heap st self)"
    and "camera (cam_setting (heap st self)) = None"
  shows "render_next_frame h st self =
         (st\<lparr>heap := (heap st)(self := (heap st self)\<lparr>frames := rest\<rparr>), frame_current := frame\<rparr>,
          Inl AttributeError)"
  using assms
  by (subst render_next_frame.simps) (simp add: Let_def)

lemma skip_state_simps [simp]:
  "heap (skip_state st self p name frame rest) = (heap st)(self := (heap st self)\<lparr>frames := rest\<rparr>)"
  "frame_current (skip_state st self p name frame rest) = frame"
  "console (skip_state st self p name frame rest) = console st @ [skipping_msg frame name]"
  "render_post (skip_state st self p name frame rest) = render_post st"
  "render_calls (skip_state st self p name frame rest) = render_calls st"
  "use_overwrite (skip_state st self p name frame rest) = use_overwrite st"
  "file_format (skip_state st self p name frame rest) = file_format st"
  "scene_camera (skip_state st self p name frame rest) = scene_camera st"
  "isfile (skip_state st self p name frame rest) = isfile st"
  by (simp_all add: skip_state_def)

lemma skip_cond_skip_state [simp]:
  "skip_cond h (skip_state st self p name frame rest) self name = skip_cond h st self name"
  by (rule ext) (simp add: skip_cond_def file_exists_def)

lemma render_call_for_skip_state [simp]:
  "render_call_for h (skip_state st self p name frame rest) self name f = render_call_for h st self name f"
  by (simp add: render_call_for_def)

lemma frames_nil_update:
  "frames j = [] \<Longrightarrow> j\<lparr>frames := [], is_running := b\<rparr> = j\<lparr>is_running := b\<rparr>"
  by (cases j) simp

lemma rnf_closed_form:
  assumes "camera (cam_setting (heap st self)) = Some name" and "\<not> is_cancelled (heap st self)"
  shows "render_next_frame h st self = rnf_closed h st self name"
  using assms
proof (induction fs \<equiv> "frames (heap st self)" arbitrary: st)
  case Nil
  then have fr: "frames (heap st self) = []"
    by simp
  show ?case
    using Nil.prems fr by (simp add: rnf_nil finish_camera rnf_closed_def Let_def frames_nil_update)
next
  case (Cons frame rest)
  let ?p = "frame_filepath h (original_filepath (heap st self)) name frame (file_format st)"
  let ?st = "skip_state st self ?p name frame rest"
  have fr: "frames (heap st self) = frame # rest"
    using Cons.hyps(2) by simp
  show ?case
  proof (cases "skip_cond h st self name frame")
    case True
    then have "render_next_frame h st self = render_next_frame h ?st self"
      using rnf_skip[OF fr Cons.prems(2) Cons.prems(1)] by (simp add: skip_cond_def)
    also have "\<dots> = rnf_closed h ?st self name"
      using Cons.prems by (intro Cons.hyps(1)) simp_all
    also have "\<dots> = rnf_closed h st self name"
    proof (cases "dropWhile (skip_cond h st self name) rest")
      case Nil
      with True fr show ?thesis
        unfolding rnf_closed_def Let_def skip_cond_skip_state render_call_for_skip_state
        by (simp add: skip_state_def del: dropWhile_eq_Nil_conv)
    next
      case (Cons f fs')
      with True fr show ?thesis
        unfolding rnf_closed_def Let_def skip_cond_skip_state render_call_for_skip_state
        by (simp add: skip_state_def del: dropWhile_eq_Nil_conv)
    qed
    finally show ?thesis .
  next
    case False
    then have "use_overwrite st \<or> \<not> file_exists h st self name frame"
      by (simp add: skip_cond_def)
    from rnf_render[OF fr Cons.prems(2) Cons.prems(1) this] False fr show ?thesis
      by (simp add: rnf_closed_def Let_def)
  qed
qed

lemma rnf_cases:
  assumes "camera (cam_setting (heap st self)) = Some name" and "\<not> is_cancelled (heap st self)"
  obtains
    (finished) "list_all (skip_cond h st self name) (frames (heap st self))" and
      "render_next_frame h st self =
         (st\<lparr>frame_current := last (frame_current st # frames (heap st self)),
             console := console st @ map (\<lambda>f. skipping_msg f name) (frames (heap st self)) @
               [finished_all_msg name],
             heap := (heap st)(self := (heap st self)\<lparr>frames := [], is_running := False\<rparr>),
             render_filepath := original_filepath (heap st self)\<rparr>, Inr ())"
  | (rendering) skipped frame rest where
      "frames (heap st self) = skipped @ frame # rest" and
      "list_all (skip_cond h st self name) skipped" and "\<not> skip_cond h st self name frame" and
      "render_next_frame h st self =
         (st\<lparr>console := console st @ map (\<lambda>f. skipping_msg f name) skipped,
             heap := (heap st)(self := (heap st self)\<lparr>frames := rest, is_running := True\<rparr>),
             frame_current := frame,
             render_filepath :=
               frame_filepath h (original_filepath (heap st self)) name frame (file_format st),
             render_post := render_post st @ [self],
             render_calls := render_calls st @ [render_call_for h st self name frame]\<rparr>, Inr ())"
proof (cases "dropWhile (skip_cond h st self name) (frames (heap st self))")
  case Nil
  then have all: "list_all (skip_cond h st self name) (frames (heap st self))"
    by (simp add: list_all_iff)
  then have tw: "takeWhile (skip_cond h st self name) (frames (heap st self)) = frames (heap st self)"
    by (simp add: list_all_iff)
  show ?thesis
    by (rule finished[OF all])
       (simp add: rnf_closed_form[OF assms] rnf_closed_def Let_def Nil tw del: dropWhile_eq_Nil_conv)
next
  case (Cons frame rest)
  let ?sk = "takeWhile (skip_cond h st self name) (frames (heap st self))"
  have fr: "frames (heap st self) = ?sk @ frame # rest"
    using Cons by (metis takeWhile_dropWhile_id)
  have sk: "list_all (skip_cond h st self name) ?sk"
    by (auto simp: list_all_iff dest: set_takeWhileD)
  have nf: "\<not> skip_cond h st self name frame"
    using Cons by (metis hd_dropWhile list.distinct(1) list.sel(1))
  show ?thesis
    by (rule rendering[OF fr sk nf])
       (simp add: rnf_closed_form[OF assms] rnf_closed_def Let_def Cons del: dropWhile_eq_Nil_conv)
qed

lemma new_render_calls_same [simp]: "render_calls st' = render_calls st \<Longrightarrow> new_render_calls st st' = []"
  by (simp add: new_render_calls_def)

lemma new_render_calls_one [simp]:
  "render_calls st' = render_calls st @ cs \<Longrightarrow> new_render_calls st st' = cs"
  by (simp add: new_render_calls_def)

lemma rnf_new_calls:
  assumes "camera (cam_setting (heap st self)) = Some name" and "\<not> is_cancelled (heap st self)"
    and "c \<in> set (new_render_calls st (fst (render_next_frame h st self)))"
  shows "c = render_call_for h st self name (rc_frame c) \<and>
         rc_frame c \<in> set (frames (heap st self)) \<and>
         \<not> skip_cond h st self name (rc_frame c) \<and>
         render_filepath (fst (render_next_frame h st self)) = rc_filepath c \<and>
         frame_current (fst (render_next_frame h st self)) = rc_frame c \<and>
         is_running (heap (fst (render_next_frame h st self)) self)"
  using assms(1,2)
proof (cases rule: rnf_cases[where h = h])
  case finished
  with assms(3) show ?thesis
    by simp
next
  case (rendering skipped frame rest)
  with assms(3) have "c = render_call_for h st self name frame"
    by simp
  then show ?thesis
    using rendering by (simp add: render_call_for_def frame_filepath_def)
qed

subsection \<open>Skipping, output paths and finishing\<close>



text \<open>
  Claim C6. For a job whose camera is named \<open>C\<close>, every render call made by
  \<^verbatim>\<open>render_next_frame\<close> is made with the scene's output path set to the path join of
  \<open>D\<close> and \<open>C_frameF.E\<close>, where \<open>F\<close> is the frame of the call, a frame of the job's list
  to which the scene has been moved, \<open>D\<close> is the output path the job recorded and \<open>E\<close>
  is the scene's file format in lower case.
\<close>

theorem output_path_rule:
  assumes "camera (cam_setting (heap st self)) = Some C"
  shows "list_all
           (\<lambda>c. rc_filepath c =
                   os_path_join h (original_filepath (heap st self))
                     (C @ ''_frame'' @ py_str (rc_frame c) @ ''.'' @ lower (file_format st)) \<and>
                 rc_frame c \<in> set (frames (heap st self)) \<and>
                 render_filepath (fst (render_next_frame h st self)) = rc_filepath c \<and>
                 frame_current (fst (render_next_frame h st self)) = rc_frame c)
           (new_render_calls st (fst (render_next_frame h st self)))"
proof (cases "is_cancelled (heap st self)")
  case True
  then show ?thesis
    by (simp add: rnf_cancelled finish_camera[OF assms])
next
  case False
  have "rc_filepath c =
          os_path_join h (original_filepath (heap st self))
            (C @ ''_frame'' @ py_str (rc_frame c) @ ''.'' @ lower (file_format st)) \<and>
        rc_frame c \<in> set (frames (heap st self)) \<and>
        render_filepath (fst (render_next_frame h st self)) = rc_filepath c \<and>
        frame_current (fst (render_next_frame h st self)) = rc_frame c"
    if "c \<in> set (new_render_calls st (fst (render_next_frame h st self)))" for c
  proof -
    note r = rnf_new_calls[OF assms False that]
    from r have "c = render_call_for h st self C (rc_frame c)"
      by simp
    then have "rc_filepath c = os_path_join h (original_filepath (heap st self))
            (C @ ''_frame'' @ py_str (rc_frame c) @ ''.'' @ lower (file_format st))"
      by (metis render_call.select_convs(4) render_call_for_def)
    with r show ?thesis
      by simp
  qed
  then show ?thesis
    by (simp add: list_all_iff)
qed

theorem output_path_rule_witness:
  "camera (cam_setting (heap example_state 0)) = Some ''CamA'' \<and>
   list_all
     (\<lambda>c. rc_filepath c =
             os_path_join example_host (original_filepath (heap example_state 0))
               (''CamA'' @ ''_frame'' @ py_str (rc_frame c) @ ''.'' @
                lower (file_format example_state)) \<and>
           rc_frame c \<in> set (frames (heap example_state 0)) \<and>
           render_filepath (fst (render_next_frame example_host example_state 0)) = rc_filepath c \<and>
           frame_current (fst (render_next_frame example_host example_state 0)) = rc_frame c)
     (new_render_calls example_state (fst (render_next_frame example_host example_state 0))) \<and>
   map rc_filepath
     (new_render_calls example_state (fst (render_next_frame example_host example_state 0))) =
     [''/tmp/out/CamA_frame4.png'']"
proof -
  have h: "camera (cam_setting (heap example_state 0)) = Some ''CamA''"
    by (simp add: example_state_def example_job_def)
  have c: "map rc_filepath
     (new_render_calls example_state (fst (render_next_frame example_host example_state 0))) =
     [''/tmp/out/CamA_frame4.png'']"
    by code_simp
  from output_path_rule[OF h, of example_host] h c show ?thesis
    by blast
qed



lemma new_RenderJob_result:
  assumes "new_RenderJob st cs = (st1, Inr ref)"
  shows "ref = next_ref st" and "next_ref st1 = Suc (next_ref st)" and "built_from st st1"
    and "\<exists>fs. fst (parse_frame_ranges (frame_ranges cs)) = Inr fs \<and>
           heap st1 = (heap st)(next_ref st :=
             \<lparr>cam_setting = cs, frames = fs, is_running = False, is_cancelled = False,
              original_filepath = render_filepath st\<rparr>)"
  using assms
  by (auto simp: new_RenderJob_def Let_def built_from_def split: prod.splits sum.splits)

text \<open>
  Claim C7. A job records the scene's output path when it is constructed, and
  \<^verbatim>\<open>finish\<close> sets the scene's output path to the path the job recorded. It changes
  no other setting of the scene: the overwrite setting, the file format, the camera,
  the current frame and the camera settings stay, no render call is made and no
  handler is added or removed; the job is marked as not running.
\<close>

theorem finish_restores_output_path:
  "(new_RenderJob st0 cs \<noteq> (st1, Inr ref) \<or>
      original_filepath (heap st1 ref) = render_filepath st0) \<and>
   render_filepath (fst (finish st self)) = original_filepath (heap st self) \<and>
   use_overwrite (fst (finish st self)) = use_overwrite st \<and>
   file_format (fst (finish st self)) = file_format st \<and>
   scene_camera (fst (finish st self)) = scene_camera st \<and>
   frame_current (fst (finish st self)) = frame_current st \<and>
   cam_settings (fst (finish st self)) = cam_settings st \<and>
   render_calls (fst (finish st self)) = render_calls st \<and>
   render_post (fst (finish st self)) = render_post st \<and>
   \<not> is_running (heap (fst (finish st self)) self)"
proof -
  have "original_filepath (heap st1 ref) = render_filepath st0"
    if "new_RenderJob st0 cs = (st1, Inr ref)"
    using new_RenderJob_result[OF that] by auto
  then show ?thesis
    by (cases "camera (cam_setting (heap st self))")
       (auto simp: finish_camera finish_no_camera)
qed

theorem finish_restores_output_path_witness:
  "new_RenderJob example_state (hd (cam_settings example_state)) =
     (fst (new_RenderJob example_state (hd (cam_settings example_state))), Inr 2) \<and>
   original_filepath
     (heap (fst (new_RenderJob example_state (hd (cam_settings example_state)))) 2) = ''/tmp/out'' \<and>
   render_filepath (fst (finish (example_state\<lparr>render_filepath := ''/tmp/out/CamA_frame4.png''\<rparr>) 0)) =
     ''/tmp/out'' \<and>
   use_overwrite (fst (finish (example_state\<lparr>render_filepath := ''/tmp/out/CamA_frame4.png''\<rparr>) 0)) =
     use_overwrite example_state \<and>
   file_format (fst (finish (example_state\<lparr>render_filepath := ''/tmp/out/CamA_frame4.png''\<rparr>) 0)) =
     file_format example_state"
proof -
  let ?cs = "hd (cam_settings example_state)"
  let ?st = "example_state\<lparr>render_filepath := ''/tmp/out/CamA_frame4.png''\<rparr>"
  have "snd (new_RenderJob example_state ?cs) = Inr 2"
    by code_simp
  then have n: "new_RenderJob example_state ?cs = (fst (new_RenderJob example_state ?cs), Inr 2)"
    by (metis prod.collapse)
  have p: "render_filepath example_state = ''/tmp/out''"
    and o: "original_filepath (heap ?st 0) = ''/tmp/out''"
    by (simp_all add: example_state_def example_job_def)
  from finish_restores_output_path[where ?st0.0 = example_state and cs = ?cs
      and ?st1.0 = "fst (new_RenderJob example_state ?cs)" and ref = 2 and st = ?st
      and self = 0] n p o
  show ?thesis
    by simp
qed

section \<open>Properties of the operator\<close>

subsection \<open>Building the queue\<close>



lemma build_jobs_no_camera:
  "list_all (\<lambda>cs. camera cs = None) css \<Longrightarrow> build_jobs st css acc = (st, Inr acc)"
  by (induction css) simp_all



text \<open>
  Claim C9. If no camera setting has a camera, \<^verbatim>\<open>execute\<close> returns \<^verbatim>\<open>CANCELLED\<close>
  and reports a warning; the operator is not added as a modal handler, and the
  current frame, the scene's camera, the output path, the render calls and the
  handlers are as before.
\<close>

theorem execute_without_cameras:
  assumes "list_all (\<lambda>cs. camera cs = None) (cam_settings st)"
  shows "snd (execute h st) = Inr CANCELLED \<and>
         reports (fst (execute h st)) =
           reports st @ [(''WARNING'', ''No valid render jobs found. Please add camera settings.'')] \<and>
         modal_handler (fst (execute h st)) = modal_handler st \<and>
         frame_current (fst (execute h st)) = frame_current st \<and>
         scene_camera (fst (execute h st)) = scene_camera st \<and>
         render_filepath (fst (execute h st)) = render_filepath st \<and>
         render_calls (fst (execute h st)) = render_calls st \<and>
         render_post (fst (execute h st)) = render_post st \<and>
         op_jobs (fst (execute h st)) = []"
  using build_jobs_no_camera[OF assms, of st "[]"]
  by (simp add: execute_def Let_def py_print_def no_jobs_report_def)

theorem execute_without_cameras_witness:
  "list_all (\<lambda>cs. camera cs = None)
     (cam_settings (example_state\<lparr>cam_settings := [cam_setting orphan_job]\<rparr>)) \<and>
   snd (execute example_host (example_state\<lparr>cam_settings := [cam_setting orphan_job]\<rparr>)) =
     Inr CANCELLED \<and>
   reports (fst (execute example_host (example_state\<lparr>cam_settings := [cam_setting orphan_job]\<rparr>))) =
     [(''WARNING'', ''No valid render jobs found. Please add camera settings.'')] \<and>
   modal_handler (fst (execute example_host (example_state\<lparr>cam_settings := [cam_setting orphan_job]\<rparr>))) =
     False"
proof -
  let ?st = "example_state\<lparr>cam_settings := [cam_setting orphan_job]\<rparr>"
  have h: "list_all (\<lambda>cs. camera cs = None) (cam_settings ?st)"
    by (simp add: orphan_job_def)
  have "reports ?st = []" and "modal_handler ?st = False"
    by (simp_all add: example_state_def)
  with execute_without_cameras[OF h, of example_host] h show ?thesis
    by simp
qed

subsection \<open>The invariant of the event loop\<close>


















subsection \<open>Sequencing\<close>





end
